theory Spec2Isabelle
  imports Main "HOL-Library.Char_ord"
begin

section \<open>The data model of package mkcert (main.go)\<close>

text \<open>
  The orchestrator of mkcert is a sequence of calls into the operating system, into the
  Go standard library and into the trust-store backends, interleaved with log lines.
  The model makes that sequence explicit: every function returns, next to its Go result,
  the list of effects it performed, in program order. What the outside world answers
  (environment variables, the outcome of a backend call, the result of a parser of the
  standard library) is read from a record \<open>world\<close>, so every theorem below holds for
  all answers the outside world can give.
\<close>

typedecl x509_Certificate
typedecl crypto_PrivateKey

text \<open>
  \<^verbatim>\<open>type Config struct\<close>. The last four fields are unexported in the source: code
  outside the package can neither read nor set them.
\<close>

record Config =
  InstallMode :: bool
  UninstallMode :: bool
  PKCS12 :: bool
  ECDSA :: bool
  Client :: bool
  KeyFile :: string
  CertFile :: string
  P12File :: string
  CSRPath :: string
  CAROOT :: string
  caCert :: "x509_Certificate option"
  caKey :: "crypto_PrivateKey option"
  ignoreCheckFailure :: bool

text \<open>\<^verbatim>\<open>type mkcert struct { Config }\<close>: the struct embeds a Config by value.\<close>

record mkcert =
  Config :: Config

text \<open>
  The calls that leave main.go. The functions \<open>loadCA\<close>, \<open>makeCert\<close>,
  \<open>makeCertFromCSR\<close> and the nine backend functions are defined in other files of the
  package; here each of them is an opaque call whose result is a parameter.
\<close>

datatype call =
    MkdirAll string
  | loadCA
  | caCert_Verify
  | installPlatform
  | checkNSS
  | installNSS
  | checkJava
  | installJava
  | uninstallNSS
  | uninstallJava
  | uninstallPlatform
  | makeCertFromCSR
  | makeCert "string list"

text \<open>
  The log lines of main.go, one constructor per \<^verbatim>\<open>log.Print*\<close> statement text:
  \<^item> \<open>Note_system\<close>, \<open>Note_nss\<close>, \<open>Note_java\<close>: "Note: the local CA is not installed in
    the ... trust store."; \<open>Run_install\<close>: "Run "mkcert -install" for certificates to be
    trusted automatically";
  \<^item> \<open>Already_system\<close>, \<open>Already_nss\<close>, \<open>Already_java\<close>: "The local CA is already
    installed in ..."; \<open>Now_system\<close>, \<open>Now_nss\<close>, \<open>Now_java\<close>: "The local CA is now
    installed in ...";
  \<^item> \<open>Nss_unsupported\<close>: "Note: ... support is not available on your platform.";
    \<open>No_certutil_install\<close>, \<open>Get_certutil_install\<close>: the two lines of the certutil
    warning of install; \<open>No_keytool_install\<close>: the keytool warning of install;
  \<^item> \<open>No_certutil_uninstall\<close>, \<open>Get_certutil_uninstall\<close>, \<open>No_keytool_uninstall\<close>: the
    same warnings of uninstall; \<open>Uninstalled_system\<close>: "The local CA is now uninstalled
    from the system trust store(s)!"; \<open>Uninstalled_nss\<close>: "The local CA is now
    uninstalled from the ... trust store(s)!";
  \<^item> \<open>No_sudo\<close>: the warning of commandWithSudo; \<open>Blank\<close>: \<^verbatim>\<open>log.Print("")\<close>.
\<close>

datatype logmsg =
    Note_system | Note_nss | Note_java | Run_install
  | Already_system | Now_system
  | Already_nss | Now_nss | Nss_unsupported | No_certutil_install | Get_certutil_install
  | Already_java | Now_java | No_keytool_install
  | No_certutil_uninstall | Get_certutil_uninstall | No_keytool_uninstall
  | Uninstalled_system | Uninstalled_nss
  | No_sudo
  | Blank

datatype event = Call call | Log logmsg

text \<open>
  The errors Run returns. \<open>Err_fatalIfErr err msg\<close> is \<^verbatim>\<open>fatalIfErr(err, msg)\<close>;
  \<open>Err_not_valid_idna name err\<close> and \<open>Err_not_valid name\<close> are the two \<^verbatim>\<open>fmt.Errorf\<close>
  of the argument loop; \<open>Err_callee\<close> is an error handed on from a function outside
  main.go.
\<close>

datatype error =
    Err_no_CAROOT
  | Err_fatalIfErr string string
  | Err_not_valid_idna string string
  | Err_not_valid string
  | Err_callee string

text \<open>
  What the outside world answers. \<open>Getenv\<close> is \<^verbatim>\<open>os.Getenv\<close>, \<open>GOOS\<close> is
  \<^verbatim>\<open>runtime.GOOS\<close>, \<open>filepath_Join\<close> is \<^verbatim>\<open>filepath.Join\<close>, \<open>MkdirAll_err\<close> the error
  of \<^verbatim>\<open>os.MkdirAll\<close>. \<open>hasNSS\<close> to \<open>CertutilInstallHelp\<close> are the package variables of
  the backends. The fields ending in \<open>_ret\<close> and \<open>_err\<close> are what the opaque calls
  return; \<open>Verify_ok\<close> says that \<^verbatim>\<open>m.caCert.Verify\<close> returned no error. \<open>ParseIP\<close> says
  that \<^verbatim>\<open>net.ParseIP\<close> returned a non-nil address; \<open>ParseAddress\<close> gives the
  \<^verbatim>\<open>Address\<close> field when \<^verbatim>\<open>mail.ParseAddress\<close> returns no error; \<open>url_Parse\<close> gives
  \<^verbatim>\<open>(Scheme, Host)\<close> when \<^verbatim>\<open>url.Parse\<close> returns no error; \<open>ToASCII\<close> is
  \<^verbatim>\<open>idna.ToASCII\<close>, \<open>Inl\<close> its error. \<open>user_Current\<close> gives the \<^verbatim>\<open>Uid\<close> when
  \<^verbatim>\<open>user.Current\<close> returns no error, \<open>LookPath_ok\<close> says that \<^verbatim>\<open>exec.LookPath\<close> found
  the binary. \<open>Version\<close> is the package variable set at link time, \<open>ReadBuildInfo\<close>
  gives \<^verbatim>\<open>Main.Version\<close> when \<^verbatim>\<open>debug.ReadBuildInfo\<close> succeeds.
\<close>

record world =
  Getenv :: "string \<Rightarrow> string"
  GOOS :: string
  filepath_Join :: "string list \<Rightarrow> string"
  MkdirAll_err :: "string option"
  hasNSS :: bool
  hasJava :: bool
  hasCertutil :: bool
  hasKeytool :: bool
  CertutilInstallHelp :: string
  loadCA_ret :: "x509_Certificate option \<times> crypto_PrivateKey option"
  Verify_ok :: bool
  installPlatform_err :: "string option"
  checkNSS_ret :: bool
  installNSS_ret :: bool
  checkJava_ret :: bool
  uninstallPlatform_err :: "string option"
  makeCert_err :: "string option"
  ParseIP :: "string \<Rightarrow> bool"
  ParseAddress :: "string \<Rightarrow> string option"
  url_Parse :: "string \<Rightarrow> (string \<times> string) option"
  ToASCII :: "string \<Rightarrow> string + string"
  user_Current :: "string option"
  LookPath_ok :: "string \<Rightarrow> bool"
  Version :: string
  ReadBuildInfo :: "string option"

section \<open>storeEnabled, checkPlatform, install, uninstall\<close>

text \<open>\<^verbatim>\<open>strings.Split(s, sep)\<close> for a separator of one byte.\<close>

fun strings_Split :: "string \<Rightarrow> char \<Rightarrow> string list" where
  "strings_Split [] sep = [[]]"
| "strings_Split (c # cs) sep =
     (if c = sep then [] # strings_Split cs sep
      else (case strings_Split cs sep of
              [] \<Rightarrow> [[c]]
            | x # xs \<Rightarrow> (c # x) # xs))"

definition storeEnabled :: "world \<Rightarrow> string \<Rightarrow> bool" where
  "storeEnabled w name =
     (let stores = Getenv w ''TRUST_STORES'' in
      if stores = [] then True
      else name \<in> set (strings_Split stores (CHR '','')))"

text \<open>
  \<^verbatim>\<open>checkPlatform\<close>: with the flag set it returns true and calls nothing; otherwise it
  verifies the CA certificate against the system roots.
\<close>

definition checkPlatform :: "world \<Rightarrow> mkcert \<Rightarrow> bool \<times> event list" where
  "checkPlatform w m =
     (if ignoreCheckFailure (Config m) then (True, [])
      else (Verify_ok w, [Call caCert_Verify]))"

text \<open>
  \<^verbatim>\<open>install\<close>, in three blocks as in the source. The system block is the only one
  that can return early (the error of installPlatform) and the only one that writes to
  \<open>m\<close>.
\<close>

definition install_system :: "world \<Rightarrow> mkcert \<Rightarrow> error option \<times> mkcert \<times> event list" where
  "install_system w m =
     (if storeEnabled w ''system'' then
        (case checkPlatform w m of
           (True, t) \<Rightarrow> (None, m, t @ [Log Already_system])
         | (False, t) \<Rightarrow>
             (case installPlatform_err w of
                Some err \<Rightarrow> (Some (Err_callee err), m, t @ [Call installPlatform])
              | None \<Rightarrow>
                  (None, m\<lparr>Config := (Config m)\<lparr>ignoreCheckFailure := True\<rparr>\<rparr>,
                   t @ [Call installPlatform, Log Now_system])))
      else (None, m, []))"

definition install_nss :: "world \<Rightarrow> event list" where
  "install_nss w =
     (if storeEnabled w ''nss'' \<and> hasNSS w then
        (if checkNSS_ret w then [Call checkNSS, Log Already_nss]
         else if hasCertutil w \<and> installNSS_ret w then
           [Call checkNSS, Call installNSS, Log Now_nss]
         else
           [Call checkNSS] @ (if hasCertutil w then [Call installNSS] else []) @
           (if CertutilInstallHelp w = [] then [Log Nss_unsupported]
            else if \<not> hasCertutil w then [Log No_certutil_install, Log Get_certutil_install]
            else []))
      else [])"

definition install_java :: "world \<Rightarrow> event list" where
  "install_java w =
     (if storeEnabled w ''java'' \<and> hasJava w then
        (if checkJava_ret w then [Call checkJava, Log Already_java]
         else if hasKeytool w then [Call checkJava, Call installJava, Log Now_java]
         else [Call checkJava, Log No_keytool_install])
      else [])"

definition install :: "world \<Rightarrow> mkcert \<Rightarrow> error option \<times> mkcert \<times> event list" where
  "install w m =
     (case install_system w m of
        (Some err, m', t) \<Rightarrow> (Some err, m', t)
      | (None, m', t) \<Rightarrow> (None, m', t @ install_nss w @ install_java w @ [Log Blank]))"

text \<open>\<^verbatim>\<open>uninstall\<close>: the NSS block, the Java block, then the system block.\<close>

definition uninstall_nss :: "world \<Rightarrow> event list" where
  "uninstall_nss w =
     (if storeEnabled w ''nss'' \<and> hasNSS w then
        (if hasCertutil w then [Call uninstallNSS]
         else if CertutilInstallHelp w \<noteq> [] then
           [Log Blank, Log No_certutil_uninstall, Log Get_certutil_uninstall, Log Blank]
         else [])
      else [])"

definition uninstall_java :: "world \<Rightarrow> event list" where
  "uninstall_java w =
     (if storeEnabled w ''java'' \<and> hasJava w then
        (if hasKeytool w then [Call uninstallJava]
         else [Log Blank, Log No_keytool_uninstall, Log Blank])
      else [])"

definition uninstall_system :: "world \<Rightarrow> error option \<times> event list" where
  "uninstall_system w =
     (if storeEnabled w ''system'' then
        (case uninstallPlatform_err w of
           Some err \<Rightarrow> (Some (Err_callee err), [Call uninstallPlatform])
         | None \<Rightarrow> (None, [Call uninstallPlatform, Log Uninstalled_system, Log Blank]))
      else if storeEnabled w ''nss'' \<and> hasCertutil w then
        (None, [Log Uninstalled_nss, Log Blank])
      else (None, []))"

definition uninstall :: "world \<Rightarrow> mkcert \<Rightarrow> error option \<times> mkcert \<times> event list" where
  "uninstall w m =
     (case uninstall_system w of
        (err, t) \<Rightarrow> (err, m, uninstall_nss w @ uninstall_java w @ t))"

section \<open>CAROOT\<close>

text \<open>The function \<^verbatim>\<open>CAROOT()\<close>; the name \<open>CAROOT\<close> is the field of Config.\<close>

definition CAROOT_func :: "world \<Rightarrow> string" where
  "CAROOT_func w =
     (let env = Getenv w ''CAROOT'' in
      if env \<noteq> [] then env
      else if GOOS w = ''windows'' then
        filepath_Join w [Getenv w ''LocalAppData'', ''mkcert'']
      else if Getenv w ''XDG_DATA_HOME'' \<noteq> [] then
        filepath_Join w [Getenv w ''XDG_DATA_HOME'', ''mkcert'']
      else if GOOS w = ''darwin'' then
        (let dir = Getenv w ''HOME'' in
         if dir = [] then []
         else filepath_Join w
                [filepath_Join w [dir, ''Library'', ''Application Support''], ''mkcert''])
      else
        (let dir = Getenv w ''HOME'' in
         if dir = [] then []
         else filepath_Join w [filepath_Join w [dir, ''.local'', ''share''], ''mkcert'']))"

section \<open>The hostname regular expression\<close>

text \<open>
  Regular expressions as far as Run uses them: a literal byte, a bracket expression
  (a list of ranges \<open>lo-hi\<close>, a single byte \<open>c\<close> being the range \<open>c-c\<close>), concatenation,
  \<open>r?\<close> and \<open>r*\<close>. The matcher works on bytes. Go matches runes, and under \<^verbatim>\<open>(?i)\<close> two
  runes beyond ASCII fold to ASCII letters; the strings matched here are results of
  \<^verbatim>\<open>idna.ToASCII\<close>.
\<close>

datatype regex =
    Lit char
  | Class "(char \<times> char) list"
  | Cat regex regex
  | Quest regex
  | Star regex

text \<open>
  Case folding of ASCII letters: the table of the pairs (upper case, lower case). Every
  other byte is its own other case.
\<close>

definition ascii_letters :: "(char \<times> char) list" where
  "ascii_letters =
     [(CHR ''A'', CHR ''a''), (CHR ''B'', CHR ''b''), (CHR ''C'', CHR ''c''), (CHR ''D'', CHR ''d''),
      (CHR ''E'', CHR ''e''), (CHR ''F'', CHR ''f''), (CHR ''G'', CHR ''g''), (CHR ''H'', CHR ''h''),
      (CHR ''I'', CHR ''i''), (CHR ''J'', CHR ''j''), (CHR ''K'', CHR ''k''), (CHR ''L'', CHR ''l''),
      (CHR ''M'', CHR ''m''), (CHR ''N'', CHR ''n''), (CHR ''O'', CHR ''o''), (CHR ''P'', CHR ''p''),
      (CHR ''Q'', CHR ''q''), (CHR ''R'', CHR ''r''), (CHR ''S'', CHR ''s''), (CHR ''T'', CHR ''t''),
      (CHR ''U'', CHR ''u''), (CHR ''V'', CHR ''v''), (CHR ''W'', CHR ''w''), (CHR ''X'', CHR ''x''),
      (CHR ''Y'', CHR ''y''), (CHR ''Z'', CHR ''z'')]"

definition to_lower :: "char \<Rightarrow> char" where
  "to_lower c = (case map_of ascii_letters c of None \<Rightarrow> c | Some l \<Rightarrow> l)"

definition to_upper :: "char \<Rightarrow> char" where
  "to_upper c =
     (case map_of (map (\<lambda>(u, l). (l, u)) ascii_letters) c of None \<Rightarrow> c | Some u \<Rightarrow> u)"

text \<open>
  \<open>in_ranges rs c\<close>: the byte is in one of the ranges. With the flag \<open>ci\<close>
  (\<^verbatim>\<open>(?i)\<close>) a byte matches when it or its other case does.
\<close>

definition in_ranges :: "(char \<times> char) list \<Rightarrow> char \<Rightarrow> bool" where
  "in_ranges rs c = list_ex (\<lambda>(lo, hi). lo \<le> c \<and> c \<le> hi) rs"

definition in_class :: "bool \<Rightarrow> (char \<times> char) list \<Rightarrow> char \<Rightarrow> bool" where
  "in_class ci rs c =
     (in_ranges rs c \<or> (ci \<and> (in_ranges rs (to_lower c) \<or> in_ranges rs (to_upper c))))"

text \<open>
  \<open>rmatch ci r s\<close> lists the rests of \<open>s\<close> after each prefix of \<open>s\<close> that \<open>r\<close>
  matches. \<open>star_from f n s\<close> iterates \<open>f\<close> at most \<open>n\<close> times, each time on a strictly
  shorter rest, so \<open>n = length s\<close> iterations are all there are.
\<close>

primrec star_from :: "(string \<Rightarrow> string list) \<Rightarrow> nat \<Rightarrow> string \<Rightarrow> string list" where
  "star_from f 0 s = [s]"
| "star_from f (Suc n) s =
     s # concat (map (star_from f n) (filter (\<lambda>t. length t < length s) (f s)))"

primrec rmatch :: "bool \<Rightarrow> regex \<Rightarrow> string \<Rightarrow> string list" where
  "rmatch ci (Lit c) s =
     (case s of [] \<Rightarrow> [] | x # xs \<Rightarrow> if in_class ci [(c, c)] x then [xs] else [])"
| "rmatch ci (Class rs) s =
     (case s of [] \<Rightarrow> [] | x # xs \<Rightarrow> if in_class ci rs x then [xs] else [])"
| "rmatch ci (Cat a b) s = concat (map (rmatch ci b) (rmatch ci a s))"
| "rmatch ci (Quest a) s = rmatch ci a s @ [s]"
| "rmatch ci (Star a) s = star_from (rmatch ci a) (length s) s"

text \<open>A pattern \<^verbatim>\<open>^r$\<close> matches the string when \<open>r\<close> can consume all of it.\<close>

definition MatchString :: "bool \<Rightarrow> regex \<Rightarrow> string \<Rightarrow> bool" where
  "MatchString ci r s = ([] \<in> set (rmatch ci r s))"

text \<open>\<^verbatim>\<open>(?i)^(\*\.)?[0-9a-z_-]([0-9a-z._-]*[0-9a-z_-])?$\<close>\<close>

definition label_class :: regex where
  "label_class =
     Class [(CHR ''0'', CHR ''9''), (CHR ''a'', CHR ''z''), (CHR ''_'', CHR ''_''),
            (CHR ''-'', CHR ''-'')]"

definition inner_class :: regex where
  "inner_class =
     Class [(CHR ''0'', CHR ''9''), (CHR ''a'', CHR ''z''), (CHR ''.'', CHR ''.''),
            (CHR ''_'', CHR ''_''), (CHR ''-'', CHR ''-'')]"

definition hostnameRegexp :: regex where
  "hostnameRegexp =
     Cat (Quest (Cat (Lit (CHR ''*'')) (Lit (CHR ''.''))))
         (Cat label_class (Quest (Cat (Star inner_class) label_class)))"

definition hostnameRegexp_MatchString :: "string \<Rightarrow> bool" where
  "hostnameRegexp_MatchString s = MatchString True hostnameRegexp s"

section \<open>Run\<close>

text \<open>
  The loop \<^verbatim>\<open>for i, name := range args\<close> of Run, from index \<open>i\<close> on. It returns the
  error, if any, and the slice \<open>args\<close> as the loop leaves it: the slice is written in
  place, so the caller of Run sees the writes.
\<close>

function range_args :: "world \<Rightarrow> nat \<Rightarrow> string list \<Rightarrow> error option \<times> string list" where
  "range_args w i args =
     (if length args \<le> i then (None, args)
      else
        (let name = args ! i in
         if ParseIP w name then range_args w (Suc i) args
         else if (case ParseAddress w name of None \<Rightarrow> False | Some addr \<Rightarrow> addr = name)
           then range_args w (Suc i) args
         else if (case url_Parse w name of None \<Rightarrow> False
                  | Some (scheme, host) \<Rightarrow> scheme \<noteq> [] \<and> host \<noteq> [])
           then range_args w (Suc i) args
         else
           (case ToASCII w name of
              Inl err \<Rightarrow> (Some (Err_not_valid_idna name err), args)
            | Inr punycode \<Rightarrow>
                if \<not> hostnameRegexp_MatchString punycode
                then (Some (Err_not_valid name), args[i := punycode])
                else range_args w (Suc i) (args[i := punycode]))))"
  by pat_completeness auto
termination
  by (relation "measure (\<lambda>(w, i, args). length args - i)") auto

declare range_args.simps [simp del]

text \<open>The \<^verbatim>\<open>default\<close> case of the switch in Run: the three trust checks.\<close>

definition check_stores :: "world \<Rightarrow> mkcert \<Rightarrow> event list" where
  "check_stores w m =
     (let (warn1, t1) =
            (if storeEnabled w ''system'' then
               (case checkPlatform w m of
                  (True, t) \<Rightarrow> (False, t)
                | (False, t) \<Rightarrow> (True, t @ [Log Note_system]))
             else (False, []));
          (warn2, t2) =
            (if storeEnabled w ''nss'' \<and> hasNSS w \<and> CertutilInstallHelp w \<noteq> [] then
               (if checkNSS_ret w then (False, [Call checkNSS])
                else (True, [Call checkNSS, Log Note_nss]))
             else (False, []));
          (warn3, t3) =
            (if storeEnabled w ''java'' \<and> hasJava w then
               (if checkJava_ret w then (False, [Call checkJava])
                else (True, [Call checkJava, Log Note_java]))
             else (False, []))
      in t1 @ t2 @ t3 @ (if warn1 \<or> warn2 \<or> warn3 then [Log Run_install] else []))"

text \<open>
  What follows the switch in Run: the CSR, else the argument loop and \<^verbatim>\<open>makeCert\<close>.
\<close>

definition Run_issue ::
  "world \<Rightarrow> mkcert \<Rightarrow> string list \<Rightarrow> error option \<times> string list \<times> event list" where
  "Run_issue w m args =
     (if CSRPath (Config m) \<noteq> [] then (None, args, [Call makeCertFromCSR])
      else
        (case range_args w 0 args of
           (Some err, args') \<Rightarrow> (Some err, args', [])
         | (None, args') \<Rightarrow>
             (map_option Err_callee (makeCert_err w), args', [Call (makeCert args')])))"

text \<open>
  \<^verbatim>\<open>func (m *mkcert) Run(args ...string) error\<close>. The result is the error, the
  receiver and the slice \<open>args\<close> as Run leaves them, and the effects. The error that
  \<^verbatim>\<open>m.install()\<close> and \<^verbatim>\<open>m.uninstall()\<close> return is dropped, as in the source.
  \<^verbatim>\<open>m.loadCA()\<close> is a call that returns and stores \<open>loadCA_ret\<close> in the fields
  \<open>caCert\<close> and \<open>caKey\<close>.
\<close>

definition mkcert_Run ::
  "world \<Rightarrow> mkcert \<Rightarrow> string list \<Rightarrow> error option \<times> mkcert \<times> string list \<times> event list" where
  "mkcert_Run w m0 args =
     (let m1 = m0\<lparr>Config := (Config m0)\<lparr>CAROOT := CAROOT_func w\<rparr>\<rparr> in
      if CAROOT (Config m1) = [] then (Some Err_no_CAROOT, m1, args, [])
      else
        (case MkdirAll_err w of
           Some err \<Rightarrow>
             (Some (Err_fatalIfErr err ''failed to create the CAROOT''), m1, args,
              [Call (MkdirAll (CAROOT (Config m1)))])
         | None \<Rightarrow>
             (let m2 = m1\<lparr>Config := (Config m1)\<lparr>caCert := fst (loadCA_ret w),
                                                 caKey := snd (loadCA_ret w)\<rparr>\<rparr>;
                  t0 = [Call (MkdirAll (CAROOT (Config m1))), Call loadCA]
              in
                if InstallMode (Config m2) then
                  (case install w m2 of
                     (_, m3, t1) \<Rightarrow>
                       if args = [] then (None, m3, args, t0 @ t1)
                       else (case Run_issue w m3 args of
                               (err, args', t2) \<Rightarrow> (err, m3, args', t0 @ t1 @ t2)))
                else if UninstallMode (Config m2) then
                  (case uninstall w m2 of
                     (_, m3, t1) \<Rightarrow> (None, m3, args, t0 @ t1))
                else
                  (case Run_issue w m2 args of
                     (err, args', t2) \<Rightarrow> (err, m2, args', t0 @ check_stores w m2 @ t2)))))"

text \<open>
  \<^verbatim>\<open>func (c Config) Run(args ...string) error\<close>: the receiver is a value, so the method
  works on a copy of the caller's Config inside a new \<open>mkcert\<close>, and that \<open>mkcert\<close> is
  dropped when the method returns. The caller gets the error, and sees the writes to
  the slice.
\<close>

definition Config_Run ::
  "world \<Rightarrow> Config \<Rightarrow> string list \<Rightarrow> error option \<times> string list \<times> event list" where
  "Config_Run w c args =
     (case mkcert_Run w \<lparr>Config = c\<rparr> args of
        (err, m, args', t) \<Rightarrow> (err, args', t))"

section \<open>commandWithSudo\<close>

text \<open>
  \<^verbatim>\<open>exec.Command(name, arg...)\<close> builds the command; commandWithSudo returns it and
  does not run it. \<open>None\<close> is the panic of \<^verbatim>\<open>cmd[0]\<close> on an empty slice. The boolean is
  the state of \<^verbatim>\<open>sudoWarningOnce\<close>: true once its function has run.
\<close>

datatype exec_Cmd = exec_Command string "string list"

definition Once_Do :: "bool \<Rightarrow> event list \<Rightarrow> bool \<times> event list" where
  "Once_Do done f = (if done then (done, []) else (True, f))"

definition command_of :: "string list \<Rightarrow> exec_Cmd option" where
  "command_of cmd = (case cmd of [] \<Rightarrow> None | c # cs \<Rightarrow> Some (exec_Command c cs))"

definition commandWithSudo ::
  "world \<Rightarrow> bool \<Rightarrow> string list \<Rightarrow> exec_Cmd option \<times> bool \<times> event list" where
  "commandWithSudo w once cmd =
     (if user_Current w = Some ''0'' then (command_of cmd, once, [])
      else if \<not> LookPath_ok w ''sudo'' then
        (case Once_Do once [Log No_sudo] of
           (once', t) \<Rightarrow> (command_of cmd, once', t))
      else
        (Some (exec_Command ''sudo'' ([''--prompt=Sudo password:'', ''--''] @ cmd)),
         once, []))"

section \<open>The front end (package main)\<close>

text \<open>The flags after \<^verbatim>\<open>flag.Parse()\<close>; the positional arguments are \<^verbatim>\<open>flag.Args()\<close>.\<close>

record flags =
  installFlag :: bool
  uninstallFlag :: bool
  pkcs12Flag :: bool
  ecdsaFlag :: bool
  clientFlag :: bool
  helpFlag :: bool
  carootFlag :: bool
  csrFlag :: string
  certFileFlag :: string
  keyFileFlag :: string
  p12FileFlag :: string
  versionFlag :: bool

text \<open>
  What main does: it prints to standard output, calls \<^verbatim>\<open>flag.Usage()\<close>, ends the
  process with \<^verbatim>\<open>log.Fatalln\<close> of one of its four messages or with \<^verbatim>\<open>log.Fatal(err)\<close>,
  or performs an effect of Run.
\<close>

datatype fatal =
    CAROOT_with_install
  | Install_with_uninstall
  | Csr_with_flags
  | Csr_with_args
  | Run_error error

datatype effect =
    Print_shortUsage
  | Print_advancedUsage
  | Println string
  | flag_Usage
  | log_Fatal fatal
  | Run_effect event

text \<open>
  \<^verbatim>\<open>func main()\<close>. The boolean of the result says that the process ends with status 0.
  The source passes \<^verbatim>\<open>flag.Args()\<close> to Run as its arguments.
\<close>

definition main :: "world \<Rightarrow> flags \<Rightarrow> string list \<Rightarrow> bool \<times> effect list" where
  "main w f args =
     (if helpFlag f then (True, [Print_shortUsage, Print_advancedUsage])
      else if versionFlag f then
        (if Version w \<noteq> [] then (True, [Println (Version w)])
         else (case ReadBuildInfo w of
                 Some v \<Rightarrow> (True, [Println v])
               | None \<Rightarrow> (True, [Println ''(unknown)''])))
      else if carootFlag f then
        (if installFlag f \<or> uninstallFlag f then (False, [log_Fatal CAROOT_with_install])
         else (True, [Println (CAROOT_func w)]))
      else if installFlag f \<and> uninstallFlag f then
        (False, [log_Fatal Install_with_uninstall])
      else if csrFlag f \<noteq> [] \<and> (pkcs12Flag f \<or> ecdsaFlag f \<or> clientFlag f) then
        (False, [log_Fatal Csr_with_flags])
      else if csrFlag f \<noteq> [] \<and> args \<noteq> [] then
        (False, [log_Fatal Csr_with_args])
      else if args = [] \<and> \<not> installFlag f \<and> \<not> uninstallFlag f \<and> csrFlag f \<noteq> [] then
        (True, [flag_Usage])
      else
        (let cfg = \<lparr>InstallMode = installFlag f, UninstallMode = uninstallFlag f,
                    PKCS12 = pkcs12Flag f, ECDSA = ecdsaFlag f, Client = clientFlag f,
                    KeyFile = keyFileFlag f, CertFile = certFileFlag f,
                    P12File = p12FileFlag f, CSRPath = csrFlag f, CAROOT = [],
                    caCert = None, caKey = None, ignoreCheckFailure = False\<rparr>
         in case Config_Run w cfg args of
              (Some err, _, t) \<Rightarrow> (False, map Run_effect t @ [log_Fatal (Run_error err)])
            | (None, _, t) \<Rightarrow> (True, map Run_effect t)))"

section \<open>Sample inputs\<close>

text \<open>
  The zero value of Config, and a Linux machine: \<^verbatim>\<open>CAROOT=/ca\<close>, no \<^verbatim>\<open>TRUST_STORES\<close>,
  all three stores present with their tools, the CA not trusted yet, a user other than
  root with sudo installed, every backend call succeeding. Its parsers know one IP
  literal, one mail address and one URL, and its \<open>ToASCII\<close> returns a name unchanged.
\<close>

definition zero_Config :: Config where
  "zero_Config =
     \<lparr>InstallMode = False, UninstallMode = False, PKCS12 = False, ECDSA = False,
      Client = False, KeyFile = [], CertFile = [], P12File = [], CSRPath = [],
      CAROOT = [], caCert = None, caKey = None, ignoreCheckFailure = False\<rparr>"

definition unix_world :: world where
  "unix_world =
     \<lparr>Getenv = (\<lambda>k. if k = ''CAROOT'' then ''/ca'' else []), GOOS = ''linux'',
      filepath_Join = (\<lambda>xs. concat (map (\<lambda>x. CHR ''/'' # x) xs)), MkdirAll_err = None,
      hasNSS = True, hasJava = True, hasCertutil = True, hasKeytool = True,
      CertutilInstallHelp = ''apt install libnss3-tools'', loadCA_ret = (None, None),
      Verify_ok = False, installPlatform_err = None, checkNSS_ret = False,
      installNSS_ret = True, checkJava_ret = False, uninstallPlatform_err = None,
      makeCert_err = None, ParseIP = (\<lambda>s. s = ''127.0.0.1''),
      ParseAddress = (\<lambda>s. if s = ''dev@example.org'' then Some s else None),
      url_Parse = (\<lambda>s. if s = ''https://example.org'' then Some (''https'', ''example.org'')
                       else Some ([], [])),
      ToASCII = (\<lambda>s. Inr s), user_Current = Some ''1000'', LookPath_ok = (\<lambda>b. True),
      Version = [], ReadBuildInfo = None\<rparr>"

text \<open>The same machine with the process running as root, and without sudo.\<close>

definition root_world :: world where
  "root_world = unix_world\<lparr>user_Current := Some ''0''\<rparr>"

definition bare_world :: world where
  "bare_world = unix_world\<lparr>LookPath_ok := (\<lambda>b. False)\<rparr>"

text \<open>No flag set; a Config for \<^verbatim>\<open>-uninstall\<close> with a CSR path; a Config for \<^verbatim>\<open>-install\<close>.\<close>

definition no_flags :: flags where
  "no_flags =
     \<lparr>installFlag = False, uninstallFlag = False, pkcs12Flag = False, ecdsaFlag = False,
      clientFlag = False, helpFlag = False, carootFlag = False, csrFlag = [],
      certFileFlag = [], keyFileFlag = [], p12FileFlag = [], versionFlag = False\<rparr>"

definition uninstall_Config :: Config where
  "uninstall_Config = zero_Config\<lparr>UninstallMode := True, CSRPath := ''req.csr''\<rparr>"

definition install_Config :: Config where
  "install_Config = zero_Config\<lparr>InstallMode := True\<rparr>"

text \<open>
  A name with a letter outside ASCII, in UTF-8, and the sample machine with a
  \<open>ToASCII\<close> that converts this name to Punycode and fails on one byte string.
\<close>

definition idn_name :: string where
  "idn_name = ''b'' @ [CHR 0xC3, CHR 0xBC] @ ''cher.example''"

definition idn_world :: world where
  "idn_world =
     unix_world\<lparr>ToASCII :=
       (\<lambda>s. if s = idn_name
            then Inr ''xn--bcher-kva.example''
            else if s = [CHR 0xFF] then Inl ''idna: invalid label'' else Inr s)\<rparr>"


section \<open>Notions used in the statements\<close>

text \<open>
  A process lifetime as far as commandWithSudo is concerned: successive calls, each in
  the world of its moment, sharing \<^verbatim>\<open>sudoWarningOnce\<close>. The result lists the commands
  built, the final state of the Once and all the effects.
\<close>

fun commandWithSudo_calls ::
  "bool \<Rightarrow> (world \<times> string list) list \<Rightarrow> exec_Cmd option list \<times> bool \<times> event list" where
  "commandWithSudo_calls once [] = ([], once, [])"
| "commandWithSudo_calls once ((w, cmd) # rest) =
     (case commandWithSudo w once cmd of
        (r, once', t) \<Rightarrow>
          (case commandWithSudo_calls once' rest of
             (rs, once'', ts) \<Rightarrow> (r # rs, once'', t @ ts)))"

text \<open>How often the sudo warning occurs among the effects.\<close>

definition warnings :: "event list \<Rightarrow> nat" where
  "warnings t = length (filter (\<lambda>e. e = Log No_sudo) t)"









text \<open>
  The three combinations of options that exclude each other: Install with Uninstall, a
  CSR with one of the PKCS12, ECDSA and client flags, a CSR with positional arguments.
\<close>

definition conflicting :: "flags \<Rightarrow> string list \<Rightarrow> bool" where
  "conflicting f args =
     ((installFlag f \<and> uninstallFlag f) \<or>
      (csrFlag f \<noteq> [] \<and> (pkcs12Flag f \<or> ecdsaFlag f \<or> clientFlag f)) \<or>
      (csrFlag f \<noteq> [] \<and> args \<noteq> []))"

text \<open>An effect of Run, as opposed to an effect of main itself.\<close>

fun is_Run_effect :: "effect \<Rightarrow> bool" where
  "is_Run_effect (Run_effect e) = True"
| "is_Run_effect e = False"

text \<open>main ends with status 1 after \<^verbatim>\<open>log.Fatalln\<close> of a conflict message and nothing else.\<close>

definition rejected :: "bool \<times> effect list \<Rightarrow> bool" where
  "rejected r =
     (r = (False, [log_Fatal CAROOT_with_install]) \<or>
      r = (False, [log_Fatal Install_with_uninstall]) \<or>
      r = (False, [log_Fatal Csr_with_flags]) \<or>
      r = (False, [log_Fatal Csr_with_args]))"

text \<open>The calls among a list of effects.\<close>

fun calls_of :: "event list \<Rightarrow> call list" where
  "calls_of [] = []"
| "calls_of (Call c # t) = c # calls_of t"
| "calls_of (Log l # t) = calls_of t"

text \<open>
  The classifier in the words of the specification: the kinds of subject, and the kind
  of one raw argument, decided in the order IP literal, mail address that equals its
  parsed form, URI with scheme and host, host name. \<open>Invalid e a\<close> is the terminal
  error \<open>e\<close>; \<open>a\<close> is the string the conversion had produced, or the argument itself
  when the conversion failed.
\<close>

datatype subject =
    IPAddress
  | EmailAddress
  | URI
  | DNSName string
  | Invalid error string

definition classify :: "world \<Rightarrow> string \<Rightarrow> subject" where
  "classify w s =
     (if ParseIP w s then IPAddress
      else if ParseAddress w s = Some s then EmailAddress
      else if (case url_Parse w s of None \<Rightarrow> False
               | Some (scheme, host) \<Rightarrow> scheme \<noteq> [] \<and> host \<noteq> []) then URI
      else (case ToASCII w s of
              Inl err \<Rightarrow> Invalid (Err_not_valid_idna s err) s
            | Inr ascii \<Rightarrow>
                if hostnameRegexp_MatchString ascii then DNSName ascii
                else Invalid (Err_not_valid s) ascii))"

text \<open>
  Whether a subject is accepted, the error of a rejected one, and what the argument list
  holds at the position of the argument afterwards.
\<close>

fun accepted :: "subject \<Rightarrow> bool" where
  "accepted (Invalid e a) = False"
| "accepted c = True"

fun the_error :: "subject \<Rightarrow> error option" where
  "the_error (Invalid e a) = Some e"
| "the_error c = None"

fun written :: "string \<Rightarrow> subject \<Rightarrow> string" where
  "written s (DNSName ascii) = ascii"
| "written s (Invalid e a) = a"
| "written s c = s"

text \<open>The whole argument list, classified from left to right up to the first rejection.\<close>

fun classify_all :: "world \<Rightarrow> string list \<Rightarrow> error option \<times> string list" where
  "classify_all w [] = (None, [])"
| "classify_all w (s # rest) =
     (if accepted (classify w s) then
        (case classify_all w rest of (e, r) \<Rightarrow> (e, written s (classify w s) # r))
      else (the_error (classify w s), written s (classify w s) # rest))"

text \<open>
  The host name grammar in the words of the specification: a label is a non-empty string
  of digits, letters of either case, hyphens and underscores; a host name is one
  optional leading \<^verbatim>\<open>*.\<close> followed by labels separated by dots.
\<close>

definition label_char :: "char \<Rightarrow> bool" where
  "label_char c =
     (c \<in> {CHR ''0'' .. CHR ''9''} \<union> {CHR ''a'' .. CHR ''z''} \<union> {CHR ''A'' .. CHR ''Z''} \<union>
          {CHR ''_'', CHR ''-''})"

definition inner_char :: "char \<Rightarrow> bool" where
  "inner_char c = (label_char c \<or> c = CHR ''.'')"

definition is_label :: "string \<Rightarrow> bool" where
  "is_label l = (l \<noteq> [] \<and> list_all label_char l)"

definition strip_wildcard :: "string \<Rightarrow> string" where
  "strip_wildcard s = (if take 2 s = ''*.'' then drop 2 s else s)"

definition hostname_grammar :: "string \<Rightarrow> bool" where
  "hostname_grammar s = list_all is_label (strings_Split (strip_wildcard s) (CHR ''.''))"

text \<open>
  The strings the pattern of Run matches, as the theorem below shows: after the optional
  \<^verbatim>\<open>*.\<close>, a non-empty string of label characters and dots that neither begins nor ends
  with a dot.
\<close>

definition tail_ok :: "string \<Rightarrow> bool" where
  "tail_ok u = (u \<noteq> [] \<and> list_all inner_char u \<and> label_char (hd u) \<and> label_char (last u))"

definition hostname_shape :: "string \<Rightarrow> bool" where
  "hostname_shape s = tail_ok (strip_wildcard s)"

section \<open>Properties\<close>

subsection \<open>The suppression flag\<close>

lemma install_keeps_flag:
  "ignoreCheckFailure (Config m) \<Longrightarrow> ignoreCheckFailure (Config (fst (snd (install w m))))"
  by (simp add: install_def install_system_def checkPlatform_def
      split: prod.splits option.splits bool.splits)

lemma uninstall_keeps_state: "fst (snd (uninstall w m)) = m"
  by (simp add: uninstall_def split: prod.splits)

text \<open>
  C7. When the system store is enabled, the CA is not trusted yet and installPlatform
  succeeds, install leaves the flag \<open>ignoreCheckFailure\<close> set. From then on checkPlatform
  answers true in every world and calls nothing, in particular not
  \<^verbatim>\<open>caCert.Verify\<close>; and neither install nor uninstall clears the flag again.
\<close>

theorem install_suppresses_check:
  assumes "storeEnabled w ''system''" and "\<not> fst (checkPlatform w m)"
    and "installPlatform_err w = None" and "install w m = (err, m', t)"
  shows "ignoreCheckFailure (Config m') \<and>
         (\<forall>w'. checkPlatform w' m' = (True, [])) \<and>
         (\<forall>w'. ignoreCheckFailure (Config (fst (snd (install w' m'))))) \<and>
         (\<forall>w'. ignoreCheckFailure (Config (fst (snd (uninstall w' m')))))"
proof -
  from assms have flag: "ignoreCheckFailure (Config m')"
    by (auto simp: install_def install_system_def
        split: prod.splits option.splits bool.splits)
  then show ?thesis
    by (simp add: checkPlatform_def install_keeps_flag uninstall_keeps_state)
qed

theorem install_suppresses_check_witness:
  "storeEnabled unix_world ''system'' \<and>
   \<not> fst (checkPlatform unix_world \<lparr>Config = zero_Config\<rparr>) \<and>
   installPlatform_err unix_world = None \<and>
   ignoreCheckFailure (Config (fst (snd (install unix_world \<lparr>Config = zero_Config\<rparr>)))) \<and>
   checkPlatform unix_world
     (fst (snd (install unix_world \<lparr>Config = zero_Config\<rparr>))) = (True, [])"
proof -
  have a: "storeEnabled unix_world ''system''"
    by (simp add: storeEnabled_def unix_world_def)
  have b: "\<not> fst (checkPlatform unix_world \<lparr>Config = zero_Config\<rparr>)"
    by (simp add: checkPlatform_def unix_world_def zero_Config_def)
  have c: "installPlatform_err unix_world = None"
    by (simp add: unix_world_def)
  obtain err m' t where d: "install unix_world \<lparr>Config = zero_Config\<rparr> = (err, m', t)"
    by (cases "install unix_world \<lparr>Config = zero_Config\<rparr>") auto
  from install_suppresses_check [OF a b c d] d a b c show ?thesis
    by simp
qed

subsection \<open>The privileged-execution gate\<close>

lemma commandWithSudo_warns:
  "warnings (snd (snd (commandWithSudo w once cmd))) \<le> (if once then 0 else 1)"
  by (simp add: commandWithSudo_def Once_Do_def warnings_def)

lemma commandWithSudo_once_mono:
  "once \<Longrightarrow> fst (snd (commandWithSudo w once cmd))"
  by (simp add: commandWithSudo_def Once_Do_def)

lemma commandWithSudo_once_set:
  "warnings (snd (snd (commandWithSudo w once cmd))) = 1 \<Longrightarrow> fst (snd (commandWithSudo w once cmd))"
  by (simp add: commandWithSudo_def Once_Do_def warnings_def split: if_splits)

lemma warnings_append: "warnings (t @ u) = warnings t + warnings u"
  by (simp add: warnings_def)

lemma calls_warn:
  "warnings (snd (snd (commandWithSudo_calls once calls))) \<le> (if once then 0 else 1)"
proof (induction calls arbitrary: once)
  case Nil
  show ?case by (simp add: warnings_def)
next
  case (Cons a calls)
  obtain w cmd where a: "a = (w, cmd)" by (cases a)
  obtain r once' t where s: "commandWithSudo w once cmd = (r, once', t)"
    by (cases "commandWithSudo w once cmd")
  obtain rs once'' ts where r: "commandWithSudo_calls once' calls = (rs, once'', ts)"
    by (cases "commandWithSudo_calls once' calls")
  have 1: "warnings t \<le> (if once then 0 else 1)"
    using commandWithSudo_warns [of w once cmd] s by simp
  have 2: "warnings ts \<le> (if once' then 0 else 1)"
    using Cons.IH [of once'] r by simp
  have 3: "once \<Longrightarrow> once'"
    using commandWithSudo_once_mono [of once w cmd] s by simp
  have 4: "warnings t = 1 \<Longrightarrow> once'"
    using commandWithSudo_once_set [of w once cmd] s by simp
  have "warnings t + warnings ts \<le> (if once then 0 else 1)"
  proof (cases once')
    case True
    with 1 2 show ?thesis by simp
  next
    case False
    with 3 4 have "\<not> once" and "warnings t \<noteq> 1" by auto
    with 1 2 False show ?thesis by simp
  qed
  then show ?case
    by (simp add: a s r warnings_append)
qed

lemma commandWithSudo_fst:
  "fst (commandWithSudo w once cmd) = fst (commandWithSudo w False cmd)"
  by (simp add: commandWithSudo_def Once_Do_def split: prod.splits)

lemma calls_results:
  "fst (commandWithSudo_calls once calls) =
   map (\<lambda>(w, cmd). fst (commandWithSudo w False cmd)) calls"
proof (induction calls arbitrary: once)
  case Nil
  show ?case by simp
next
  case (Cons a calls)
  obtain w cmd where a: "a = (w, cmd)" by (cases a)
  obtain r once' t where s: "commandWithSudo w once cmd = (r, once', t)"
    by (cases "commandWithSudo w once cmd")
  obtain rs once'' ts where r: "commandWithSudo_calls once' calls = (rs, once'', ts)"
    by (cases "commandWithSudo_calls once' calls")
  have 1: "r = fst (commandWithSudo w False cmd)"
    using commandWithSudo_fst [of w once cmd] s by simp
  have 2: "rs = map (\<lambda>(w, cmd). fst (commandWithSudo w False cmd)) calls"
    using Cons.IH [of once'] r by simp
  from 1 2 show ?case
    by (simp add: a s r)
qed

text \<open>
  C9. commandWithSudo on a command \<open>c # cs\<close>: when the current user has uid 0 it
  builds the command itself; otherwise, when sudo is found, it builds
  \<^verbatim>\<open>sudo --prompt=Sudo password: -- c cs\<close>; otherwise it builds the command itself and
  prints the warning through the Once. Over any sequence of calls in one process the
  warning is printed at most once, and the command each call builds is the one a first
  call in the same world would build: the uid and the presence of sudo are read anew
  every time, nothing is remembered but the Once.
\<close>

theorem commandWithSudo_gate:
  "(user_Current w = Some ''0'' \<longrightarrow>
      commandWithSudo w once (c # cs) = (Some (exec_Command c cs), once, [])) \<and>
   (user_Current w \<noteq> Some ''0'' \<and> LookPath_ok w ''sudo'' \<longrightarrow>
      commandWithSudo w once cmd =
        (Some (exec_Command ''sudo'' (''--prompt=Sudo password:'' # ''--'' # cmd)), once, [])) \<and>
   (user_Current w \<noteq> Some ''0'' \<and> \<not> LookPath_ok w ''sudo'' \<longrightarrow>
      commandWithSudo w once (c # cs) =
        (Some (exec_Command c cs), True, if once then [] else [Log No_sudo])) \<and>
   warnings (snd (snd (commandWithSudo_calls once calls))) \<le> 1 \<and>
   fst (commandWithSudo_calls once calls) =
     map (\<lambda>(w, cmd). fst (commandWithSudo w False cmd)) calls"
proof -
  have "warnings (snd (snd (commandWithSudo_calls once calls))) \<le> 1"
    using calls_warn [of once calls] by (simp split: if_splits)
  then show ?thesis
    by (simp add: commandWithSudo_def Once_Do_def command_of_def calls_results)
qed

theorem commandWithSudo_gate_witness:
  "user_Current root_world = Some ''0'' \<and>
   commandWithSudo root_world False [''trust'', ''anchor''] =
     (Some (exec_Command ''trust'' [''anchor'']), False, []) \<and>
   user_Current unix_world \<noteq> Some ''0'' \<and> LookPath_ok unix_world ''sudo'' \<and>
   commandWithSudo unix_world False [''trust'', ''anchor''] =
     (Some (exec_Command ''sudo'' [''--prompt=Sudo password:'', ''--'', ''trust'', ''anchor'']),
      False, []) \<and>
   user_Current bare_world \<noteq> Some ''0'' \<and> \<not> LookPath_ok bare_world ''sudo'' \<and>
   commandWithSudo bare_world False [''trust'', ''anchor''] =
     (Some (exec_Command ''trust'' [''anchor'']), True, [Log No_sudo]) \<and>
   warnings (snd (snd (commandWithSudo_calls False
     [(bare_world, [''trust'']), (unix_world, [''trust'']), (bare_world, [''trust''])]))) = 1"
proof -
  have r: "user_Current root_world = Some ''0''"
    by (simp add: root_world_def)
  have u: "user_Current unix_world \<noteq> Some ''0'' \<and> LookPath_ok unix_world ''sudo''"
    by (simp add: unix_world_def)
  have b: "user_Current bare_world \<noteq> Some ''0'' \<and> \<not> LookPath_ok bare_world ''sudo''"
    by (simp add: bare_world_def unix_world_def)
  have n: "warnings (snd (snd (commandWithSudo_calls False
     [(bare_world, [''trust'']), (unix_world, [''trust'']), (bare_world, [''trust''])]))) \<noteq> 0"
    by (simp add: commandWithSudo_def Once_Do_def warnings_def bare_world_def unix_world_def)
  from r u b n
    commandWithSudo_gate [of root_world False "''trust''" "[''anchor'']" "[]" "[]"]
    commandWithSudo_gate [of unix_world False "''trust''" "[''anchor'']" "[''trust'', ''anchor'']" "[]"]
    commandWithSudo_gate [of bare_world False "''trust''" "[''anchor'']" "[]"
      "[(bare_world, [''trust'']), (unix_world, [''trust'']), (bare_world, [''trust''])]"]
  show ?thesis by simp
qed

subsection \<open>The order of the stores\<close>


















lemma uninstall_trace:
  "snd (snd (uninstall w m)) = uninstall_nss w @ uninstall_java w @ snd (uninstall_system w)"
  by (cases "uninstall_system w") (simp add: uninstall_def)






subsection \<open>The front end\<close>

text \<open>
  C1. \<^verbatim>\<open>mkcert\<close> without flags and arguments on the sample machine: main does not call
  \<^verbatim>\<open>flag.Usage()\<close>. The test before the call of Run asks for a CSR flag that is not
  empty, so the invocation reaches Run, which creates the CAROOT directory, loads the CA,
  checks the three stores and calls \<^verbatim>\<open>makeCert\<close> on the empty list.
\<close>

theorem main_no_arguments:
  "main unix_world no_flags [] =
     (True, map Run_effect
        [Call (MkdirAll ''/ca''), Call loadCA,
         Call caCert_Verify, Log Note_system, Call checkNSS, Log Note_nss,
         Call checkJava, Log Note_java, Log Run_install, Call (makeCert [])])"
  by (simp add: main_def no_flags_def Config_Run_def mkcert_Run_def CAROOT_func_def
      check_stores_def checkPlatform_def storeEnabled_def Run_issue_def range_args.simps
      unix_world_def)

text \<open>
  C2. Run in Install mode with a CSR path and no arguments on the sample machine: it
  installs into the three stores and returns nil; \<^verbatim>\<open>makeCertFromCSR\<close> is not called.
\<close>

theorem install_with_csr:
  "Config_Run unix_world (zero_Config\<lparr>InstallMode := True, CSRPath := ''req.csr''\<rparr>) [] =
     (None, [],
      [Call (MkdirAll ''/ca''), Call loadCA,
       Call caCert_Verify, Call installPlatform, Log Now_system,
       Call checkNSS, Call installNSS, Log Now_nss,
       Call checkJava, Call installJava, Log Now_java, Log Blank])"
  by (simp add: Config_Run_def mkcert_Run_def CAROOT_func_def install_def install_system_def
      install_nss_def install_java_def checkPlatform_def storeEnabled_def
      unix_world_def zero_Config_def)

text \<open>
  C4, as stated, fails: \<^verbatim>\<open>mkcert -help -install -uninstall\<close> is not rejected; it prints
  the two usage texts and ends with status 0.
\<close>

theorem help_with_conflict_counterexample:
  "conflicting (no_flags\<lparr>installFlag := True, uninstallFlag := True, helpFlag := True\<rparr>) [] \<and>
   \<not> rejected
      (main unix_world
        (no_flags\<lparr>installFlag := True, uninstallFlag := True, helpFlag := True\<rparr>) []) \<and>
   main unix_world (no_flags\<lparr>installFlag := True, uninstallFlag := True, helpFlag := True\<rparr>) [] =
     (True, [Print_shortUsage, Print_advancedUsage])"
  by (simp add: conflicting_def main_def no_flags_def rejected_def)

text \<open>
  C4, amended. For every conflicting combination main performs no effect of Run, so it
  touches no file. When neither \<^verbatim>\<open>-help\<close> nor \<^verbatim>\<open>-version\<close> is given, and \<^verbatim>\<open>-CAROOT\<close>
  only together with \<^verbatim>\<open>-install\<close> or \<^verbatim>\<open>-uninstall\<close>, main rejects the combination:
  its only effect is \<^verbatim>\<open>log.Fatalln\<close> of a conflict message, and the status is 1.
\<close>

theorem main_rejects_conflicts:
  assumes "conflicting f args"
  shows "\<not> list_ex is_Run_effect (snd (main w f args)) \<and>
         (\<not> helpFlag f \<and> \<not> versionFlag f \<and>
          (carootFlag f \<longrightarrow> installFlag f \<or> uninstallFlag f) \<longrightarrow>
          rejected (main w f args))"
  using assms
  by (auto simp: conflicting_def main_def rejected_def split: option.splits)

theorem main_rejects_conflicts_witness:
  "conflicting (no_flags\<lparr>csrFlag := ''req.csr'', ecdsaFlag := True\<rparr>) [] \<and>
   \<not> helpFlag (no_flags\<lparr>csrFlag := ''req.csr'', ecdsaFlag := True\<rparr>) \<and>
   \<not> versionFlag (no_flags\<lparr>csrFlag := ''req.csr'', ecdsaFlag := True\<rparr>) \<and>
   \<not> carootFlag (no_flags\<lparr>csrFlag := ''req.csr'', ecdsaFlag := True\<rparr>) \<and>
   rejected (main unix_world (no_flags\<lparr>csrFlag := ''req.csr'', ecdsaFlag := True\<rparr>) []) \<and>
   \<not> list_ex is_Run_effect
      (snd (main unix_world (no_flags\<lparr>csrFlag := ''req.csr'', ecdsaFlag := True\<rparr>) [])) \<and>
   main unix_world (no_flags\<lparr>csrFlag := ''req.csr'', ecdsaFlag := True\<rparr>) [] =
     (False, [log_Fatal Csr_with_flags])"
proof -
  have c: "conflicting (no_flags\<lparr>csrFlag := ''req.csr'', ecdsaFlag := True\<rparr>) []"
    by (simp add: conflicting_def no_flags_def)
  have m: "main unix_world (no_flags\<lparr>csrFlag := ''req.csr'', ecdsaFlag := True\<rparr>) [] =
     (False, [log_Fatal Csr_with_flags])"
    by (simp add: main_def no_flags_def)
  have h: "\<not> helpFlag (no_flags\<lparr>csrFlag := ''req.csr'', ecdsaFlag := True\<rparr>) \<and>
     \<not> versionFlag (no_flags\<lparr>csrFlag := ''req.csr'', ecdsaFlag := True\<rparr>) \<and>
     \<not> carootFlag (no_flags\<lparr>csrFlag := ''req.csr'', ecdsaFlag := True\<rparr>)"
    by (simp add: no_flags_def)
  from main_rejects_conflicts [OF c, of unix_world] c h m show ?thesis
    by blast
qed

subsection \<open>Uninstall mode\<close>

lemma Call_in_calls_of: "Call c \<in> set t \<longleftrightarrow> c \<in> set (calls_of t)"
  by (induction t rule: calls_of.induct) auto

lemma calls_of_append: "calls_of (a @ b) = calls_of a @ calls_of b"
  by (induction a rule: calls_of.induct) auto

lemma uninstall_calls:
  "set (calls_of (snd (snd (uninstall w m)))) \<subseteq> {uninstallNSS, uninstallJava, uninstallPlatform}"
  by (simp add: uninstall_trace calls_of_append uninstall_nss_def uninstall_java_def
      uninstall_system_def split: option.splits)

lemma mkcert_Run_uninstall:
  assumes "UninstallMode (Config m)" and "\<not> InstallMode (Config m)"
    and "CAROOT_func w \<noteq> []" and "MkdirAll_err w = None"
  shows "\<exists>m'. mkcert_Run w m args =
           (None, m', args,
            [Call (MkdirAll (CAROOT_func w)), Call loadCA] @ snd (snd (uninstall w m')))"
proof -
  let ?m2 = "m\<lparr>Config := (Config m)\<lparr>CAROOT := CAROOT_func w, caCert := fst (loadCA_ret w),
                                        caKey := snd (loadCA_ret w)\<rparr>\<rparr>"
  obtain e m3 t1 where u: "uninstall w ?m2 = (e, m3, t1)"
    by (cases "uninstall w ?m2")
  have t1: "t1 = snd (snd (uninstall w m3))"
    using u uninstall_trace [of w ?m2] uninstall_trace [of w m3] by simp
  from assms u have "mkcert_Run w m args =
      (None, m3, args, [Call (MkdirAll (CAROOT_func w)), Call loadCA] @ t1)"
    by (simp add: mkcert_Run_def)
  with t1 show ?thesis by blast
qed

lemma mkcert_Run_early:
  assumes "CAROOT_func w = [] \<or> MkdirAll_err w \<noteq> None"
  shows "fst (snd (snd (mkcert_Run w m args))) = args \<and>
         set (calls_of (snd (snd (snd (mkcert_Run w m args))))) \<subseteq> {MkdirAll (CAROOT_func w)}"
  using assms by (auto simp: mkcert_Run_def Let_def split: option.splits)

text \<open>
  C8. Run with UninstallMode set and InstallMode not set: the slice \<open>args\<close> is left as
  it was; the only calls are \<^verbatim>\<open>os.MkdirAll\<close> on the CAROOT, \<open>loadCA\<close> and the three
  uninstall functions of the backends, so neither \<open>makeCert\<close> nor \<open>makeCertFromCSR\<close>
  nor one of the three trust checks is called, and main.go itself removes no file; and
  when the CAROOT is found and created, Run returns nil right after the effects of
  uninstall.
\<close>

theorem uninstall_mode_returns:
  assumes "UninstallMode (Config m)" and "\<not> InstallMode (Config m)"
    and "mkcert_Run w m args = (err, m', args', t)"
  shows "args' = args \<and>
         set (calls_of t) \<subseteq>
           {MkdirAll (CAROOT_func w), loadCA, uninstallNSS, uninstallJava, uninstallPlatform} \<and>
         (\<forall>a. Call (makeCert a) \<notin> set t) \<and> Call makeCertFromCSR \<notin> set t \<and>
         Call caCert_Verify \<notin> set t \<and> Call checkNSS \<notin> set t \<and> Call checkJava \<notin> set t \<and>
         (CAROOT_func w \<noteq> [] \<and> MkdirAll_err w = None \<longrightarrow>
            err = None \<and>
            t = [Call (MkdirAll (CAROOT_func w)), Call loadCA] @ snd (snd (uninstall w m')))"
proof -
  have main: "args' = args \<and>
         set (calls_of t) \<subseteq>
           {MkdirAll (CAROOT_func w), loadCA, uninstallNSS, uninstallJava, uninstallPlatform} \<and>
         (CAROOT_func w \<noteq> [] \<and> MkdirAll_err w = None \<longrightarrow>
            err = None \<and>
            t = [Call (MkdirAll (CAROOT_func w)), Call loadCA] @ snd (snd (uninstall w m')))"
  proof (cases "CAROOT_func w \<noteq> [] \<and> MkdirAll_err w = None")
    case True
    then obtain m'' where "mkcert_Run w m args =
           (None, m'', args,
            [Call (MkdirAll (CAROOT_func w)), Call loadCA] @ snd (snd (uninstall w m'')))"
      using mkcert_Run_uninstall [OF assms(1,2), of w args] by blast
    with assms(3) have "err = None \<and> args' = args \<and>
      t = [Call (MkdirAll (CAROOT_func w)), Call loadCA] @ snd (snd (uninstall w m'))"
      by auto
    moreover have "set (calls_of (snd (snd (uninstall w m')))) \<subseteq>
        {uninstallNSS, uninstallJava, uninstallPlatform}"
      by (rule uninstall_calls)
    ultimately show ?thesis
      by (auto simp: calls_of_append)
  next
    case False
    then have "CAROOT_func w = [] \<or> MkdirAll_err w \<noteq> None" by simp
    from mkcert_Run_early [OF this, of m args] assms(3) False show ?thesis
      by auto
  qed
  then have sub: "set (calls_of t) \<subseteq>
      {MkdirAll (CAROOT_func w), loadCA, uninstallNSS, uninstallJava, uninstallPlatform}"
    by simp
  have "(\<forall>a. Call (makeCert a) \<notin> set t) \<and> Call makeCertFromCSR \<notin> set t \<and>
         Call caCert_Verify \<notin> set t \<and> Call checkNSS \<notin> set t \<and> Call checkJava \<notin> set t"
    using sub by (auto simp: Call_in_calls_of)
  with main show ?thesis by simp
qed

theorem uninstall_mode_returns_witness:
  "UninstallMode (Config \<lparr>Config = uninstall_Config\<rparr>) \<and>
   \<not> InstallMode (Config \<lparr>Config = uninstall_Config\<rparr>) \<and>
   CAROOT_func unix_world \<noteq> [] \<and> MkdirAll_err unix_world = None \<and>
   fst (mkcert_Run unix_world \<lparr>Config = uninstall_Config\<rparr> [''example.org'']) = None \<and>
   snd (snd (snd (mkcert_Run unix_world \<lparr>Config = uninstall_Config\<rparr> [''example.org'']))) =
     [Call (MkdirAll ''/ca''), Call loadCA, Call uninstallNSS, Call uninstallJava,
      Call uninstallPlatform, Log Uninstalled_system, Log Blank]"
proof -
  let ?m = "\<lparr>Config = uninstall_Config\<rparr>"
  have a: "UninstallMode (Config ?m)" and b: "\<not> InstallMode (Config ?m)"
    by (simp_all add: uninstall_Config_def zero_Config_def)
  have c: "CAROOT_func unix_world \<noteq> [] \<and> MkdirAll_err unix_world = None"
    by (simp add: CAROOT_func_def unix_world_def)
  obtain err m' args' t where
    r: "mkcert_Run unix_world ?m [''example.org''] = (err, m', args', t)"
    by (cases "mkcert_Run unix_world ?m [''example.org'']") auto
  have u: "snd (snd (uninstall unix_world m')) =
     [Call uninstallNSS, Call uninstallJava, Call uninstallPlatform, Log Uninstalled_system,
      Log Blank]"
    by (simp add: uninstall_trace uninstall_nss_def uninstall_java_def uninstall_system_def
        storeEnabled_def unix_world_def)
  have d: "CAROOT_func unix_world = ''/ca''"
    by (simp add: CAROOT_func_def unix_world_def)
  from uninstall_mode_returns [OF a b r] a b c r u d show ?thesis
    by simp
qed

subsection \<open>Config.Run\<close>

lemma install_CAROOT: "CAROOT (Config (fst (snd (install w m)))) = CAROOT (Config m)"
  by (simp add: install_def install_system_def checkPlatform_def
      split: prod.splits option.splits bool.splits)

lemma mkcert_Run_CAROOT:
  "CAROOT (Config (fst (snd (mkcert_Run w m args)))) = CAROOT_func w"
proof -
  let ?m1 = "m\<lparr>Config := (Config m)\<lparr>CAROOT := CAROOT_func w\<rparr>\<rparr>"
  let ?m2 = "?m1\<lparr>Config := (Config ?m1)\<lparr>caCert := fst (loadCA_ret w),
                                           caKey := snd (loadCA_ret w)\<rparr>\<rparr>"
  have i: "CAROOT (Config (fst (snd (install w ?m2)))) = CAROOT_func w"
    by (simp add: install_CAROOT)
  have u: "CAROOT (Config (fst (snd (uninstall w ?m2)))) = CAROOT_func w"
    by (simp add: uninstall_keeps_state)
  from i u show ?thesis
    by (simp add: mkcert_Run_def Let_def case_prod_beta split: option.splits)
qed

lemma install_system_verifies:
  "storeEnabled w ''system'' \<Longrightarrow> \<not> ignoreCheckFailure (Config m) \<Longrightarrow>
   Call caCert_Verify \<in> set (snd (snd (install w m)))"
  by (auto simp: install_def install_system_def checkPlatform_def
      split: prod.splits option.splits bool.splits)

lemma check_stores_verifies:
  "storeEnabled w ''system'' \<Longrightarrow> \<not> ignoreCheckFailure (Config m) \<Longrightarrow>
   Call caCert_Verify \<in> set (check_stores w m)"
  by (auto simp: check_stores_def checkPlatform_def split: prod.splits bool.splits)

lemma install_sets_flag:
  "storeEnabled w ''system'' \<Longrightarrow> \<not> ignoreCheckFailure (Config m) \<Longrightarrow> \<not> Verify_ok w \<Longrightarrow>
   installPlatform_err w = None \<Longrightarrow> ignoreCheckFailure (Config (fst (snd (install w m))))"
  by (auto simp: install_def install_system_def checkPlatform_def
      split: prod.splits option.splits bool.splits)

lemma mkcert_Run_verifies:
  assumes "\<not> ignoreCheckFailure (Config m)" and "InstallMode (Config m) \<or> \<not> UninstallMode (Config m)"
    and "storeEnabled w ''system''" and "CAROOT_func w \<noteq> []" and "MkdirAll_err w = None"
  shows "Call caCert_Verify \<in> set (snd (snd (snd (mkcert_Run w m args))))"
proof -
  let ?m1 = "m\<lparr>Config := (Config m)\<lparr>CAROOT := CAROOT_func w\<rparr>\<rparr>"
  let ?m2 = "?m1\<lparr>Config := (Config ?m1)\<lparr>caCert := fst (loadCA_ret w),
                                           caKey := snd (loadCA_ret w)\<rparr>\<rparr>"
  have f: "\<not> ignoreCheckFailure (Config ?m2)"
    using assms(1) by simp
  note i = install_system_verifies [OF assms(3) f]
  note c = check_stores_verifies [OF assms(3) f]
  from assms i c show ?thesis
    by (auto simp: mkcert_Run_def Let_def case_prod_beta)
qed

lemma mkcert_Run_sets_flag:
  assumes "InstallMode (Config m)" and "\<not> ignoreCheckFailure (Config m)"
    and "storeEnabled w ''system''" and "\<not> Verify_ok w" and "installPlatform_err w = None"
    and "CAROOT_func w \<noteq> []" and "MkdirAll_err w = None"
  shows "ignoreCheckFailure (Config (fst (snd (mkcert_Run w m args))))"
proof -
  let ?m1 = "m\<lparr>Config := (Config m)\<lparr>CAROOT := CAROOT_func w\<rparr>\<rparr>"
  let ?m2 = "?m1\<lparr>Config := (Config ?m1)\<lparr>caCert := fst (loadCA_ret w),
                                           caKey := snd (loadCA_ret w)\<rparr>\<rparr>"
  have f: "\<not> ignoreCheckFailure (Config ?m2)"
    using assms(2) by simp
  note i = install_sets_flag [OF assms(3) f assms(4,5)]
  from assms i show ?thesis
    by (simp add: mkcert_Run_def Let_def case_prod_beta)
qed

text \<open>
  C10. Config.Run is the Run of a new \<open>mkcert\<close> that holds a copy of the Config. That
  \<open>mkcert\<close> ends with the CAROOT resolved and, after a successful install into the
  system store, with \<open>ignoreCheckFailure\<close> set; the caller's Config has neither. So
  every Run on a Config whose flag is not set, in install mode or in the default mode
  with the system store enabled, does call \<^verbatim>\<open>caCert.Verify\<close>, whatever an earlier Run
  on the same Config did.
\<close>

theorem Config_Run_copy:
  "Config_Run w c args =
     (case mkcert_Run w \<lparr>Config = c\<rparr> args of (err, m, args', t) \<Rightarrow> (err, args', t)) \<and>
   CAROOT (Config (fst (snd (mkcert_Run w \<lparr>Config = c\<rparr> args)))) = CAROOT_func w \<and>
   (InstallMode c \<and> \<not> ignoreCheckFailure c \<and> storeEnabled w ''system'' \<and> \<not> Verify_ok w \<and>
    installPlatform_err w = None \<and> CAROOT_func w \<noteq> [] \<and> MkdirAll_err w = None \<longrightarrow>
      ignoreCheckFailure (Config (fst (snd (mkcert_Run w \<lparr>Config = c\<rparr> args))))) \<and>
   (\<not> ignoreCheckFailure c \<and> (InstallMode c \<or> \<not> UninstallMode c) \<and>
    storeEnabled w ''system'' \<and> CAROOT_func w \<noteq> [] \<and> MkdirAll_err w = None \<longrightarrow>
      Call caCert_Verify \<in> set (snd (snd (Config_Run w c args))))"
proof -
  have v: "snd (snd (Config_Run w c args)) = snd (snd (snd (mkcert_Run w \<lparr>Config = c\<rparr> args)))"
    by (simp add: Config_Run_def case_prod_beta)
  show ?thesis
    using mkcert_Run_sets_flag [of "\<lparr>Config = c\<rparr>" w args]
      mkcert_Run_verifies [of "\<lparr>Config = c\<rparr>" w args]
    by (simp add: v mkcert_Run_CAROOT) (simp add: Config_Run_def)
qed

theorem Config_Run_copy_witness:
  "InstallMode install_Config \<and> \<not> ignoreCheckFailure install_Config \<and>
   CAROOT install_Config = [] \<and>
   storeEnabled unix_world ''system'' \<and> \<not> Verify_ok unix_world \<and>
   installPlatform_err unix_world = None \<and> CAROOT_func unix_world \<noteq> [] \<and>
   MkdirAll_err unix_world = None \<and>
   CAROOT (Config (fst (snd (mkcert_Run unix_world \<lparr>Config = install_Config\<rparr> [])))) = ''/ca'' \<and>
   ignoreCheckFailure (Config (fst (snd (mkcert_Run unix_world \<lparr>Config = install_Config\<rparr> [])))) \<and>
   Call caCert_Verify \<in> set (snd (snd (Config_Run unix_world install_Config [])))"
proof -
  have a: "InstallMode install_Config \<and> \<not> ignoreCheckFailure install_Config \<and>
     CAROOT install_Config = []"
    by (simp add: install_Config_def zero_Config_def)
  have b: "storeEnabled unix_world ''system'' \<and> \<not> Verify_ok unix_world \<and>
     installPlatform_err unix_world = None \<and> MkdirAll_err unix_world = None"
    by (simp add: storeEnabled_def unix_world_def)
  have c: "CAROOT_func unix_world = ''/ca''"
    by (simp add: CAROOT_func_def unix_world_def)
  from Config_Run_copy [of unix_world install_Config "[]", THEN conjunct2] a b c
  show ?thesis
    by simp
qed

subsection \<open>The subject classifier\<close>

lemma range_args_step:
  assumes "i < length args"
  shows "range_args w i args =
     (case classify w (args ! i) of
        Invalid e a \<Rightarrow> (Some e, args[i := a])
      | c \<Rightarrow> range_args w (Suc i) (args[i := written (args ! i) c]))"
  using assms
  by (subst range_args.simps)
     (auto simp: classify_def Let_def split: option.splits sum.splits)

lemma range_args_done: "length args \<le> i \<Longrightarrow> range_args w i args = (None, args)"
  by (subst range_args.simps) simp

lemma range_args_from:
  "i \<le> length args \<Longrightarrow>
   range_args w i args =
     (fst (classify_all w (drop i args)), take i args @ snd (classify_all w (drop i args)))"
proof (induction "length args - i" arbitrary: i args)
  case 0
  then show ?case by (simp add: range_args_done)
next
  case (Suc n)
  then have lt: "i < length args" by simp
  have d: "drop i args = args ! i # drop (Suc i) args"
    using lt by (simp add: Cons_nth_drop_Suc)
  show ?case
  proof (cases "accepted (classify w (args ! i))")
    case False
    then obtain e a where c: "classify w (args ! i) = Invalid e a"
      by (cases "classify w (args ! i)") auto
    show ?thesis
      using lt by (simp add: range_args_step c d upd_conv_take_nth_drop)
  next
    case True
    let ?v = "written (args ! i) (classify w (args ! i))"
    let ?args = "args[i := ?v]"
    have step: "range_args w i args = range_args w (Suc i) ?args"
      using True lt by (cases "classify w (args ! i)") (simp_all add: range_args_step)
    have n: "n = length ?args - Suc i" and le: "Suc i \<le> length ?args"
      using Suc.hyps(2) lt by simp_all
    have t: "take (Suc i) ?args = take i args @ [?v]"
      using lt by (simp add: take_Suc_conv_app_nth)
    have dr: "drop (Suc i) ?args = drop (Suc i) args"
      by simp
    note ih = Suc.hyps(1) [OF n le, unfolded t dr]
    show ?thesis
      using True by (simp add: step ih d case_prod_beta)
  qed
qed

lemma classify_all_fst:
  "fst (classify_all w xs) =
     (case dropWhile (\<lambda>s. accepted (classify w s)) xs of
        [] \<Rightarrow> None | bad # later \<Rightarrow> the_error (classify w bad))"
  by (induction xs) (simp_all add: case_prod_beta)

lemma classify_all_snd:
  "snd (classify_all w xs) =
     map (\<lambda>s. written s (classify w s)) (takeWhile (\<lambda>s. accepted (classify w s)) xs) @
     (case dropWhile (\<lambda>s. accepted (classify w s)) xs of
        [] \<Rightarrow> [] | bad # later \<Rightarrow> written bad (classify w bad) # later)"
  by (induction xs) (simp_all add: case_prod_beta)

lemma Run_issue_invalid:
  "CSRPath (Config m) = [] \<Longrightarrow> fst (range_args w 0 args) \<noteq> None \<Longrightarrow>
   Run_issue w m args = (fst (range_args w 0 args), snd (range_args w 0 args), [])"
  by (cases "range_args w 0 args") (auto simp: Run_issue_def)

text \<open>
  C5. The loop of Run over the arguments does what the classifier of the specification
  says, one argument after the other: arguments up to the first rejected one are
  classified in the order IP, mail address equal to its parsed form, URI with scheme and
  host, host name, and the list holds the ASCII form in place of every host name; at the
  first rejected argument the loop returns its error, the list holds what the
  conversion produced for it, and the arguments after it are as they were. When no CSR
  is given, Run then returns this error without calling \<open>makeCert\<close>.
\<close>

theorem range_args_classifies:
  "range_args w 0 args =
     ((case dropWhile (\<lambda>s. accepted (classify w s)) args of
         [] \<Rightarrow> None | bad # later \<Rightarrow> the_error (classify w bad)),
      map (\<lambda>s. written s (classify w s)) (takeWhile (\<lambda>s. accepted (classify w s)) args) @
      (case dropWhile (\<lambda>s. accepted (classify w s)) args of
         [] \<Rightarrow> [] | bad # later \<Rightarrow> written bad (classify w bad) # later)) \<and>
   (CSRPath (Config m) = [] \<and> fst (range_args w 0 args) \<noteq> None \<longrightarrow>
      Run_issue w m args = (fst (range_args w 0 args), snd (range_args w 0 args), []))"
proof -
  have "range_args w 0 args = (fst (classify_all w args), snd (classify_all w args))"
    using range_args_from [of 0 args w] by simp
  moreover have "CSRPath (Config m) = [] \<and> fst (range_args w 0 args) \<noteq> None \<longrightarrow>
      Run_issue w m args = (fst (range_args w 0 args), snd (range_args w 0 args), [])"
    using Run_issue_invalid [of m w args] by blast
  ultimately show ?thesis
    by (simp only: classify_all_fst classify_all_snd)
qed

lemma hostname_matches:
  "hostnameRegexp_MatchString ''xn--bcher-kva.example''"
  "\<not> hostnameRegexp_MatchString ''*bad''"
  by (simp_all add: hostnameRegexp_MatchString_def MatchString_def hostnameRegexp_def
      label_class_def inner_class_def in_class_def in_ranges_def to_lower_def to_upper_def ascii_letters_def)

lemma idn_classify:
  "classify idn_world ''127.0.0.1'' = IPAddress"
  "classify idn_world ''dev@example.org'' = EmailAddress"
  "classify idn_world ''https://example.org'' = URI"
  "classify idn_world idn_name = DNSName ''xn--bcher-kva.example''"
  "classify idn_world ''*bad'' = Invalid (Err_not_valid ''*bad'') ''*bad''"
  by (simp_all add: classify_def idn_world_def unix_world_def idn_name_def hostname_matches)

theorem range_args_classifies_witness:
  "CSRPath (Config \<lparr>Config = zero_Config\<rparr>) = [] \<and>
   range_args idn_world 0
     [''127.0.0.1'', idn_name, ''dev@example.org'', ''https://example.org'', ''*bad'', idn_name] =
     (Some (Err_not_valid ''*bad''),
      [''127.0.0.1'', ''xn--bcher-kva.example'', ''dev@example.org'', ''https://example.org'',
       ''*bad'', idn_name]) \<and>
   Run_issue idn_world \<lparr>Config = zero_Config\<rparr>
     [''127.0.0.1'', idn_name, ''dev@example.org'', ''https://example.org'', ''*bad'', idn_name] =
     (Some (Err_not_valid ''*bad''),
      [''127.0.0.1'', ''xn--bcher-kva.example'', ''dev@example.org'', ''https://example.org'',
       ''*bad'', idn_name], [])"
proof -
  let ?args = "[''127.0.0.1'', idn_name, ''dev@example.org'', ''https://example.org'', ''*bad'',
    idn_name]"
  have c: "CSRPath (Config \<lparr>Config = zero_Config\<rparr>) = []"
    by (simp add: zero_Config_def)
  have r: "range_args idn_world 0 ?args =
     (Some (Err_not_valid ''*bad''),
      [''127.0.0.1'', ''xn--bcher-kva.example'', ''dev@example.org'', ''https://example.org'',
       ''*bad'', idn_name])"
    using range_args_classifies [of idn_world ?args "\<lparr>Config = zero_Config\<rparr>", THEN conjunct1]
    by (simp add: idn_classify)
  from range_args_classifies [of idn_world ?args "\<lparr>Config = zero_Config\<rparr>", THEN conjunct2] c r
  show ?thesis by simp
qed

subsection \<open>The host name pattern\<close>

text \<open>
  The two bracket expressions and the two literals of the pattern under \<^verbatim>\<open>(?i)\<close>, by
  going through all bytes.
\<close>

lemma label_class_char:
  "in_class True [(CHR ''0'', CHR ''9''), (CHR ''a'', CHR ''z''), (CHR ''_'', CHR ''_''),
            (CHR ''-'', CHR ''-'')] c = label_char c"
  apply (cases c)
  subgoal for b0 b1 b2 b3 b4 b5 b6 b7
    apply (cases b0; cases b1; cases b2; cases b3; cases b4; cases b5; cases b6; cases b7)
    apply (simp_all add: in_class_def in_ranges_def to_lower_def to_upper_def ascii_letters_def label_char_def)
    done
  done

lemma inner_class_char:
  "in_class True [(CHR ''0'', CHR ''9''), (CHR ''a'', CHR ''z''), (CHR ''.'', CHR ''.''),
            (CHR ''_'', CHR ''_''), (CHR ''-'', CHR ''-'')] c = inner_char c"
  apply (cases c)
  subgoal for b0 b1 b2 b3 b4 b5 b6 b7
    apply (cases b0; cases b1; cases b2; cases b3; cases b4; cases b5; cases b6; cases b7)
    apply (simp_all add: in_class_def in_ranges_def to_lower_def to_upper_def ascii_letters_def label_char_def
        inner_char_def)
    done
  done

lemma star_char: "in_class True [(CHR ''*'', CHR ''*'')] c = (c = CHR ''*'')"
  apply (cases c)
  subgoal for b0 b1 b2 b3 b4 b5 b6 b7
    apply (cases b0; cases b1; cases b2; cases b3; cases b4; cases b5; cases b6; cases b7)
    apply (simp_all add: in_class_def in_ranges_def to_lower_def to_upper_def ascii_letters_def)
    done
  done

lemma dot_char: "in_class True [(CHR ''.'', CHR ''.'')] c = (c = CHR ''.'')"
  apply (cases c)
  subgoal for b0 b1 b2 b3 b4 b5 b6 b7
    apply (cases b0; cases b1; cases b2; cases b3; cases b4; cases b5; cases b6; cases b7)
    apply (simp_all add: in_class_def in_ranges_def to_lower_def to_upper_def ascii_letters_def)
    done
  done

lemma rmatch_Class_iff:
  "t \<in> set (rmatch ci (Class rs) s) \<longleftrightarrow> (\<exists>c. s = c # t \<and> in_class ci rs c)"
  by (cases s) auto

lemma rmatch_Lit_iff:
  "t \<in> set (rmatch ci (Lit x) s) \<longleftrightarrow> (\<exists>c. s = c # t \<and> in_class ci [(x, x)] c)"
  by (cases s) auto

lemma rmatch_Cat_iff:
  "t \<in> set (rmatch ci (Cat a b) s) \<longleftrightarrow> (\<exists>u. u \<in> set (rmatch ci a s) \<and> t \<in> set (rmatch ci b u))"
  by auto

lemma rmatch_Quest_iff:
  "t \<in> set (rmatch ci (Quest a) s) \<longleftrightarrow> t \<in> set (rmatch ci a s) \<or> t = s"
  by auto

lemma star_from_chars:
  assumes f: "\<And>s. f s = (case s of [] \<Rightarrow> [] | x # xs \<Rightarrow> if P x then [xs] else [])"
  shows "length s \<le> n \<Longrightarrow>
         t \<in> set (star_from f n s) \<longleftrightarrow> (\<exists>p. s = p @ t \<and> list_all P p)"
proof (induction n arbitrary: s)
  case 0
  then show ?case by auto
next
  case (Suc n)
  show ?case
  proof (cases s)
    case Nil
    then show ?thesis by (auto simp: f)
  next
    case (Cons x xs)
    show ?thesis
    proof (cases "P x")
      case True
      have "length xs \<le> n" using Suc.prems Cons by simp
      note ih = Suc.IH [OF this]
      have "t \<in> set (star_from f (Suc n) s) \<longleftrightarrow> t = s \<or> t \<in> set (star_from f n xs)"
        using True by (simp add: Cons f)
      also have "\<dots> \<longleftrightarrow> t = s \<or> (\<exists>p. xs = p @ t \<and> list_all P p)"
        by (simp only: ih)
      also have "\<dots> \<longleftrightarrow> (\<exists>p. s = p @ t \<and> list_all P p)"
        using True by (auto simp: Cons Cons_eq_append_conv)
      finally show ?thesis .
    next
      case False
      have "t \<in> set (star_from f (Suc n) s) \<longleftrightarrow> t = s"
        using False by (simp add: Cons f)
      also have "\<dots> \<longleftrightarrow> (\<exists>p. s = p @ t \<and> list_all P p)"
        using False by (auto simp: Cons Cons_eq_append_conv)
      finally show ?thesis .
    qed
  qed
qed

lemma rmatch_Star_Class_iff:
  "t \<in> set (rmatch ci (Star (Class rs)) s) \<longleftrightarrow>
     (\<exists>p. s = p @ t \<and> list_all (in_class ci rs) p)"
proof -
  have "t \<in> set (star_from (rmatch ci (Class rs)) (length s) s) \<longleftrightarrow>
     (\<exists>p. s = p @ t \<and> list_all (in_class ci rs) p)"
    by (rule star_from_chars) simp_all
  then show ?thesis by simp
qed

lemma label_inner: "label_char c \<Longrightarrow> inner_char c"
  by (simp add: inner_char_def)

lemma rmatch_tail:
  "[] \<in> set (rmatch True (Cat label_class (Quest (Cat (Star inner_class) label_class))) u)
   \<longleftrightarrow> tail_ok u"
proof -
  have "[] \<in> set (rmatch True (Cat label_class (Quest (Cat (Star inner_class) label_class))) u)
     \<longleftrightarrow> (\<exists>c v. u = c # v \<and> label_char c \<and>
            (v = [] \<or> (\<exists>p d. v = p @ [d] \<and> list_all inner_char p \<and> label_char d)))"
    unfolding rmatch_Cat_iff rmatch_Quest_iff
    unfolding label_class_def inner_class_def rmatch_Star_Class_iff rmatch_Class_iff
      label_class_char inner_class_char
    by (auto simp: list_all_iff)
  also have "\<dots> \<longleftrightarrow> tail_ok u"
  proof (cases u)
    case Nil
    then show ?thesis by (simp add: tail_ok_def)
  next
    case (Cons c v)
    show ?thesis
    proof (cases "v = []")
      case True
      with Cons show ?thesis by (auto simp: tail_ok_def label_inner)
    next
      case False
      then obtain p d where v: "v = p @ [d]"
        by (metis append_butlast_last_id)
      show ?thesis
        by (auto simp: Cons v tail_ok_def label_inner)
    qed
  qed
  finally show ?thesis .
qed

lemma hostnameRegexp_split:
  "hostnameRegexp_MatchString s \<longleftrightarrow> tail_ok s \<or> (\<exists>u. s = CHR ''*'' # CHR ''.'' # u \<and> tail_ok u)"
  unfolding hostnameRegexp_MatchString_def MatchString_def hostnameRegexp_def
  unfolding rmatch_Cat_iff [of _ _ "Quest _"] rmatch_Quest_iff
  unfolding rmatch_Cat_iff [of _ _ "Lit _"] rmatch_Lit_iff star_char dot_char rmatch_tail
  by auto

lemma star_not_label: "\<not> label_char (CHR ''*'')"
  by (simp add: label_char_def)

lemma hostnameRegexp_shape: "hostnameRegexp_MatchString s \<longleftrightarrow> hostname_shape s"
proof (cases "take 2 s = ''*.''")
  case True
  then obtain u where s: "s = CHR ''*'' # CHR ''.'' # u"
    by (cases s; cases "tl s") auto
  show ?thesis
    by (simp add: hostnameRegexp_split hostname_shape_def strip_wildcard_def s tail_ok_def
        star_not_label)
next
  case False
  then have "\<And>u. s \<noteq> CHR ''*'' # CHR ''.'' # u" by auto
  with False show ?thesis
    by (simp add: hostnameRegexp_split hostname_shape_def strip_wildcard_def tail_ok_def)
qed

lemma Split_Cons: "\<exists>x xs. strings_Split cs sep = x # xs"
  by (induction cs) (auto split: list.splits)

lemma Split_chars:
  "strings_Split cs (CHR ''.'') = x # xs \<Longrightarrow> list_all label_char x \<Longrightarrow>
   list_all is_label xs \<Longrightarrow>
   list_all inner_char cs \<and> (cs \<noteq> [] \<longrightarrow> label_char (last cs))"
proof (induction cs arbitrary: x xs)
  case Nil
  then show ?case by simp
next
  case (Cons c cs)
  obtain y ys where sp: "strings_Split cs (CHR ''.'') = y # ys"
    using Split_Cons by blast
  show ?case
  proof (cases "c = CHR ''.''")
    case True
    with Cons.prems sp have "x = []" and xs: "xs = y # ys" by simp_all
    with Cons.prems(3) have y: "is_label y" and ys: "list_all is_label ys" by simp_all
    from y have "list_all label_char y" and "y \<noteq> []" by (simp_all add: is_label_def)
    with Cons.IH [OF sp _ ys] sp have "list_all inner_char cs" and "cs \<noteq> []"
      and "label_char (last cs)"
      by auto
    moreover have "inner_char c" using True by (simp add: inner_char_def)
    ultimately show ?thesis by simp
  next
    case False
    with Cons.prems sp have x: "x = c # y" and xs: "xs = ys" by simp_all
    with Cons.prems have c: "label_char c" and y: "list_all label_char y"
      and ys: "list_all is_label ys" by simp_all
    from c have "inner_char c" by (simp add: inner_char_def)
    with Cons.IH [OF sp y ys] c show ?thesis
      by simp
  qed
qed

lemma Split_hd:
  "strings_Split cs (CHR ''.'') = x # xs \<Longrightarrow> x \<noteq> [] \<Longrightarrow> cs \<noteq> [] \<and> hd cs = hd x"
  by (cases cs) (auto split: if_splits list.splits)

lemma grammar_shape: "hostname_grammar s \<Longrightarrow> hostname_shape s"
proof -
  assume g: "hostname_grammar s"
  obtain x xs where sp: "strings_Split (strip_wildcard s) (CHR ''.'') = x # xs"
    using Split_Cons by blast
  with g have x: "is_label x" and xs: "list_all is_label xs"
    by (simp_all add: hostname_grammar_def)
  from x have xl: "list_all label_char x" and xn: "x \<noteq> []" and hx: "label_char (hd x)"
    by (cases x; simp add: is_label_def)+
  from Split_chars [OF sp xl xs] Split_hd [OF sp xn] hx show ?thesis
    by (simp add: hostname_shape_def tail_ok_def)
qed

lemma label_chars:
  "label_char (CHR ''a'')" "label_char (CHR ''b'')" "label_char (CHR ''e'')"
  "label_char (CHR ''g'')" "label_char (CHR ''l'')" "label_char (CHR ''m'')"
  "label_char (CHR ''o'')" "label_char (CHR ''p'')" "label_char (CHR ''r'')"
  "label_char (CHR ''x'')" "\<not> label_char (CHR ''*'')" "\<not> label_char (CHR ''.'')"
  by (simp_all add: label_char_def)

text \<open>
  C6, as stated, fails: the pattern matches \<^verbatim>\<open>a..b\<close>, which is not a sequence of labels
  separated by dots, the label between the two dots being empty.
\<close>

theorem empty_label_counterexample:
  "hostnameRegexp_MatchString ''a..b'' \<and> \<not> hostname_grammar ''a..b''"
  by (simp add: hostnameRegexp_shape hostname_shape_def tail_ok_def hostname_grammar_def
      strip_wildcard_def is_label_def inner_char_def label_chars)


lemma range_args_hostname:
  assumes "\<not> ParseIP w name" and "ParseAddress w name \<noteq> Some name"
    and "\<not> (case url_Parse w name of None \<Rightarrow> False
            | Some (scheme, host) \<Rightarrow> scheme \<noteq> [] \<and> host \<noteq> [])"
    and "ToASCII w name = Inr ascii"
  shows "range_args w 0 [name] =
     (if hostnameRegexp_MatchString ascii then (None, [ascii])
      else (Some (Err_not_valid name), [ascii]))"
proof -
  have c: "classify w name =
     (if hostnameRegexp_MatchString ascii then DNSName ascii
      else Invalid (Err_not_valid name) ascii)"
    using assms by (simp add: classify_def)
  show ?thesis
    by (simp add: range_args_step [of 0 "[name]"] c range_args_done)
qed

text \<open>
  C6, amended. The pattern matches exactly the strings that consist of an optional
  leading \<^verbatim>\<open>*.\<close> and a non-empty string of digits, letters of either case, hyphens,
  underscores and dots that neither begins nor ends with a dot. Every host name of the
  grammar of the specification is among them; so is \<^verbatim>\<open>*.example.org\<close>, and
  \<^verbatim>\<open>*example.org\<close> is not. An argument that is no IP literal, no mail address equal
  to its parsed form and no URI with scheme and host, and that \<open>ToASCII\<close> converts, is
  replaced by its ASCII form and accepted when the pattern matches that form, and
  rejected with the terminal error otherwise.
\<close>

theorem hostnameRegexp_language:
  "(hostnameRegexp_MatchString s \<longleftrightarrow> hostname_shape s) \<and>
   (hostname_grammar s \<longrightarrow> hostnameRegexp_MatchString s) \<and>
   hostnameRegexp_MatchString ''*.example.org'' \<and>
   \<not> hostnameRegexp_MatchString ''*example.org'' \<and>
   (\<not> ParseIP w name \<and> ParseAddress w name \<noteq> Some name \<and>
    \<not> (case url_Parse w name of None \<Rightarrow> False
       | Some (scheme, host) \<Rightarrow> scheme \<noteq> [] \<and> host \<noteq> []) \<and>
    ToASCII w name = Inr ascii \<longrightarrow>
      range_args w 0 [name] =
        (if hostnameRegexp_MatchString ascii then (None, [ascii])
         else (Some (Err_not_valid name), [ascii])))"
proof -
  have 1: "hostnameRegexp_MatchString ''*.example.org''"
    by (simp add: hostnameRegexp_shape hostname_shape_def tail_ok_def strip_wildcard_def
        inner_char_def label_chars)
  have 2: "\<not> hostnameRegexp_MatchString ''*example.org''"
    by (simp add: hostnameRegexp_shape hostname_shape_def tail_ok_def strip_wildcard_def
        label_chars)
  from 1 2 show ?thesis
    using hostnameRegexp_shape [of s] grammar_shape [of s] range_args_hostname [of w name ascii]
    by blast
qed

theorem hostnameRegexp_language_witness:
  "hostname_grammar ''*.example.org'' \<and> hostname_shape ''*.example.org'' \<and>
   \<not> ParseIP unix_world ''*example.org'' \<and>
   ParseAddress unix_world ''*example.org'' \<noteq> Some ''*example.org'' \<and>
   \<not> (case url_Parse unix_world ''*example.org'' of None \<Rightarrow> False
      | Some (scheme, host) \<Rightarrow> scheme \<noteq> [] \<and> host \<noteq> []) \<and>
   ToASCII unix_world ''*example.org'' = Inr ''*example.org'' \<and>
   range_args unix_world 0 [''*example.org''] =
     (Some (Err_not_valid ''*example.org''), [''*example.org'']) \<and>
   range_args unix_world 0 [''*.example.org''] = (None, [''*.example.org''])"
proof -
  have g: "hostname_grammar ''*.example.org''"
    by (simp add: hostname_grammar_def strip_wildcard_def is_label_def label_chars)
  have a: "\<not> ParseIP unix_world ''*example.org'' \<and>
     ParseAddress unix_world ''*example.org'' \<noteq> Some ''*example.org'' \<and>
     \<not> (case url_Parse unix_world ''*example.org'' of None \<Rightarrow> False
        | Some (scheme, host) \<Rightarrow> scheme \<noteq> [] \<and> host \<noteq> []) \<and>
     ToASCII unix_world ''*example.org'' = Inr ''*example.org''"
    by (simp add: unix_world_def)
  have b: "\<not> ParseIP unix_world ''*.example.org'' \<and>
     ParseAddress unix_world ''*.example.org'' \<noteq> Some ''*.example.org'' \<and>
     \<not> (case url_Parse unix_world ''*.example.org'' of None \<Rightarrow> False
        | Some (scheme, host) \<Rightarrow> scheme \<noteq> [] \<and> host \<noteq> []) \<and>
     ToASCII unix_world ''*.example.org'' = Inr ''*.example.org''"
    by (simp add: unix_world_def)
  from g a b
    hostnameRegexp_language [of "''*.example.org''" unix_world "''*example.org''"
      "''*example.org''"]
    hostnameRegexp_language [of "''*.example.org''" unix_world "''*.example.org''"
      "''*.example.org''"]
  show ?thesis
    by simp
qed

end
